theory Spec2Isabelle
  imports Main
begin

section \<open>The item entity and the local database\<close>

text \<open>
  \<^verbatim>\<open>interface ItemEntity { id: number; done: boolean; value: string; }\<close>

  The field names \<open>id\<close>, \<open>done\<close> and \<open>value\<close> are taken by HOL and by Isar, so
  each carries the suffix \<open>_of\<close>.
\<close>

record ItemEntity =
  id_of :: int
  done_of :: bool
  value_of :: string

text \<open>
  The SQL texts that \<^verbatim>\<open>App.tsx\<close> sends to the database handle, with their bound
  parameters:
  \<^item> \<open>PragmaGetUserVersion\<close>: \<^verbatim>\<open>PRAGMA user_version\<close>
  \<^item> \<open>PragmaSetUserVersion n\<close>: \<^verbatim>\<open>PRAGMA user_version = ${n}\<close>
  \<^item> \<open>CreateTableItems\<close>: \<^verbatim>\<open>CREATE TABLE IF NOT EXISTS items (id INTEGER PRIMARY KEY NOT NULL, done INT, value TEXT);\<close>
  \<^item> \<open>InsertItem d v\<close>: \<^verbatim>\<open>INSERT INTO items (done, value) VALUES (?, ?);\<close>
  \<^item> \<open>UpdateDone d i\<close>: \<^verbatim>\<open>UPDATE items SET done = ? WHERE id = ?;\<close>
  \<^item> \<open>DeleteItem i\<close>: \<^verbatim>\<open>DELETE FROM items WHERE id = ?;\<close>
  \<^item> \<open>SelectByDone d\<close>: \<^verbatim>\<open>SELECT * FROM items WHERE done = ?\<close>
\<close>

datatype statement =
    PragmaGetUserVersion
  | PragmaSetUserVersion int
  | CreateTableItems
  | InsertItem bool string
  | UpdateDone bool int
  | DeleteItem int
  | SelectByDone bool

text \<open>
  A statement fails either because the table \<open>items\<close> is absent or because the engine
  reports a failure of its own (disk, lock, read-only file); the second kind is decided
  from outside by a \<open>faults\<close> oracle.
\<close>

datatype sql_error = NoSuchTable | StatementFailed statement

type_synonym faults = "statement \<Rightarrow> bool"

text \<open>
  The calls that the application makes on the database handle \<^verbatim>\<open>db\<close>, in the order
  it makes them. The list is a history of the run, not data of the store.
\<close>

datatype call = SyncLibSQL | WithTransactionAsync | Sql statement

text \<open>
  The database \<^verbatim>\<open>offline.db\<close>: the persisted \<^verbatim>\<open>user_version\<close>, the table \<open>items\<close>
  (\<open>None\<close> until it is created; its rows in rowid order, which is the order of a table
  scan) and the history of calls.
\<close>

record database =
  user_version :: int
  items :: "ItemEntity list option"
  calls :: "call list"

definition store :: "database \<Rightarrow> int \<times> ItemEntity list option" where
  "store d = (user_version d, items d)"

definition rowid_ordered :: "ItemEntity list \<Rightarrow> bool" where
  "rowid_ordered rows = sorted_wrt (<) (map id_of rows)"

text \<open>The table, when it exists, is in rowid order.\<close>

definition table_ordered :: "database \<Rightarrow> bool" where
  "table_ordered d = (case items d of None \<Rightarrow> True | Some rows \<Rightarrow> rowid_ordered rows)"

subsection \<open>The SQLite engine behind the handle\<close>

text \<open>
  An \<^verbatim>\<open>INTEGER PRIMARY KEY\<close> column is the rowid. An insert that gives no id takes
  1 in an empty table and one more than the largest rowid otherwise. Ids are unbounded
  integers here; the engine's random choice at rowid \<open>2^63 - 1\<close> is outside the model.
\<close>

definition next_rowid :: "ItemEntity list \<Rightarrow> int" where
  "next_rowid rows = (if rows = [] then 1 else Max (set (map id_of rows)) + 1)"

fun execute :: "statement \<Rightarrow> database \<Rightarrow> sql_error + database" where
  "execute PragmaGetUserVersion d = Inr d"
| "execute (PragmaSetUserVersion n) d = Inr (d\<lparr>user_version := n\<rparr>)"
| "execute CreateTableItems d =
     (case items d of
        None \<Rightarrow> Inr (d\<lparr>items := Some []\<rparr>)
      | Some rows \<Rightarrow> Inr d)"
| "execute (InsertItem dn v) d =
     (case items d of
        None \<Rightarrow> Inl NoSuchTable
      | Some rows \<Rightarrow>
          Inr (d\<lparr>items := Some (rows @ [\<lparr>id_of = next_rowid rows, done_of = dn, value_of = v\<rparr>])\<rparr>))"
| "execute (UpdateDone dn i) d =
     (case items d of
        None \<Rightarrow> Inl NoSuchTable
      | Some rows \<Rightarrow>
          Inr (d\<lparr>items := Some (map (\<lambda>r. if id_of r = i then r\<lparr>done_of := dn\<rparr> else r) rows)\<rparr>))"
| "execute (DeleteItem i) d =
     (case items d of
        None \<Rightarrow> Inl NoSuchTable
      | Some rows \<Rightarrow> Inr (d\<lparr>items := Some (filter (\<lambda>r. id_of r \<noteq> i) rows)\<rparr>))"
| "execute (SelectByDone dn) d =
     (case items d of
        None \<Rightarrow> Inl NoSuchTable
      | Some rows \<Rightarrow> Inr d)"

text \<open>
  The methods of the handle. Each records the call; a failed statement changes nothing
  in the store and rejects, so the result is paired with the database after the call.
\<close>

definition execAsync :: "faults \<Rightarrow> statement \<Rightarrow> database \<Rightarrow> (sql_error + unit) \<times> database" where
  "execAsync fault stmt d =
     (let d1 = d\<lparr>calls := calls d @ [Sql stmt]\<rparr> in
      if fault stmt then (Inl (StatementFailed stmt), d1)
      else case execute stmt d1 of
             Inl e \<Rightarrow> (Inl e, d1)
           | Inr d2 \<Rightarrow> (Inr (), d2))"

definition runAsync :: "faults \<Rightarrow> statement \<Rightarrow> database \<Rightarrow> (sql_error + unit) \<times> database" where
  "runAsync fault stmt d =
     (let d1 = d\<lparr>calls := calls d @ [Sql stmt]\<rparr> in
      if fault stmt then (Inl (StatementFailed stmt), d1)
      else case execute stmt d1 of
             Inl e \<Rightarrow> (Inl e, d1)
           | Inr d2 \<Rightarrow> (Inr (), d2))"

text \<open>\<^verbatim>\<open>db.getFirstAsync("PRAGMA user_version")\<close>: the one row \<^verbatim>\<open>{ user_version }\<close>.\<close>

definition getFirstAsync :: "faults \<Rightarrow> database \<Rightarrow> (sql_error + int) \<times> database" where
  "getFirstAsync fault d =
     (let d1 = d\<lparr>calls := calls d @ [Sql PragmaGetUserVersion]\<rparr> in
      if fault PragmaGetUserVersion then (Inl (StatementFailed PragmaGetUserVersion), d1)
      else (Inr (user_version d1), d1))"

text \<open>\<^verbatim>\<open>db.getAllAsync("SELECT * FROM items WHERE done = ?", dn)\<close>: a scan of the table.\<close>

definition getAllAsync :: "faults \<Rightarrow> bool \<Rightarrow> database \<Rightarrow> (sql_error + ItemEntity list) \<times> database" where
  "getAllAsync fault dn d =
     (let d1 = d\<lparr>calls := calls d @ [Sql (SelectByDone dn)]\<rparr> in
      if fault (SelectByDone dn) then (Inl (StatementFailed (SelectByDone dn)), d1)
      else case items d1 of
             None \<Rightarrow> (Inl NoSuchTable, d1)
           | Some rows \<Rightarrow> (Inr (filter (\<lambda>r. done_of r = dn) rows), d1))"

text \<open>
  \<^verbatim>\<open>db.syncLibSQL()\<close> hands the local store to the replication primitive of libSQL.
  The primitive is outside the repository and is a parameter: it either fails (\<open>None\<close>,
  remote unreachable or rejected) or returns the reconciled store. It is one atomic call
  with a binary outcome. \<^verbatim>\<open>App.tsx\<close> never awaits the promise and never catches its
  rejection, so no error comes back to the caller.
\<close>

type_synonym replication = "database \<Rightarrow> database option"

definition syncLibSQL :: "replication \<Rightarrow> database \<Rightarrow> database" where
  "syncLibSQL repl d =
     (let d1 = d\<lparr>calls := calls d @ [SyncLibSQL]\<rparr> in
      case repl d of
        None \<Rightarrow> d1
      | Some r \<Rightarrow> d1\<lparr>user_version := user_version r, items := items r\<rparr>)"

section \<open>Database operations of \<^verbatim>\<open>App.tsx\<close>\<close>

text \<open>
  \<^verbatim>\<open>
  async function addItemAsync(db, text) {
    if (text !== "") {
      await db.runAsync("INSERT INTO items (done, value) VALUES (?, ?);", false, text);
    }
  }
  \<close>
\<close>

definition addItemAsync :: "faults \<Rightarrow> database \<Rightarrow> string \<Rightarrow> (sql_error + unit) \<times> database" where
  "addItemAsync fault d txt =
     (if txt \<noteq> [] then runAsync fault (InsertItem False txt) d
      else (Inr (), d))"

text \<open>
  \<^verbatim>\<open>
  async function updateItemAsDoneAsync(db, id) {
    await db.runAsync("UPDATE items SET done = ? WHERE id = ?;", true, id);
  }
  \<close>
\<close>

definition updateItemAsDoneAsync :: "faults \<Rightarrow> database \<Rightarrow> int \<Rightarrow> (sql_error + unit) \<times> database" where
  "updateItemAsDoneAsync fault d i = runAsync fault (UpdateDone True i) d"

text \<open>
  \<^verbatim>\<open>
  async function deleteItemAsync(db, id) {
    await db.runAsync("DELETE FROM items WHERE id = ?;", id);
  }
  \<close>
\<close>

definition deleteItemAsync :: "faults \<Rightarrow> database \<Rightarrow> int \<Rightarrow> (sql_error + unit) \<times> database" where
  "deleteItemAsync fault d i = runAsync fault (DeleteItem i) d"

text \<open>
  \<^verbatim>\<open>
  async function migrateDbIfNeeded(db) {
    db.syncLibSQL();
    const DATABASE_VERSION = 1;
    let { user_version: currentDbVersion } = await db.getFirstAsync("PRAGMA user_version");
    if (currentDbVersion >= DATABASE_VERSION) { return; }
    if (currentDbVersion === 0) {
      await db.execAsync(`CREATE TABLE IF NOT EXISTS items (...);`);
      currentDbVersion = 1;
    }
    await db.execAsync(`PRAGMA user_version = ${DATABASE_VERSION}`);
  }
  \<close>
\<close>

definition DATABASE_VERSION :: int where
  "DATABASE_VERSION = 1"

definition migrateDbIfNeeded :: "replication \<Rightarrow> faults \<Rightarrow> database \<Rightarrow> (sql_error + unit) \<times> database" where
  "migrateDbIfNeeded repl fault d0 =
     (let d1 = syncLibSQL repl d0 in
      case getFirstAsync fault d1 of
        (Inl e, d2) \<Rightarrow> (Inl e, d2)
      | (Inr currentDbVersion, d2) \<Rightarrow>
          if currentDbVersion \<ge> DATABASE_VERSION then (Inr (), d2)
          else
            (case (if currentDbVersion = 0 then
                     (case execAsync fault CreateTableItems d2 of
                        (Inl e, d3) \<Rightarrow> (Inl e, d3)
                      | (Inr u, d3) \<Rightarrow> (Inr (1::int), d3))
                   else (Inr currentDbVersion, d2)) of
               (Inl e, d3) \<Rightarrow> (Inl e, d3)
             | (Inr currentDbVersion', d3) \<Rightarrow>
                 execAsync fault (PragmaSetUserVersion DATABASE_VERSION) d3))"

section \<open>The component \<^verbatim>\<open>Main\<close>\<close>

text \<open>
  The state of the component: the handle from \<^verbatim>\<open>useSQLiteContext()\<close> and the four
  \<^verbatim>\<open>useState\<close> cells (\<open>text\<close> is an Isar keyword, hence \<open>text_of\<close>).
\<close>

record main_state =
  db :: database
  text_of :: string
  todoItems :: "ItemEntity list"
  doneItems :: "ItemEntity list"
  enablePollingSync :: bool

text \<open>
  \<^verbatim>\<open>db.withTransactionAsync(task)\<close> runs the task between \<^verbatim>\<open>BEGIN\<close> and \<^verbatim>\<open>COMMIT\<close>;
  when the task rejects it rolls the store back to its state at \<^verbatim>\<open>BEGIN\<close> and rejects
  with the same error. The \<^verbatim>\<open>useState\<close> cells are not part of the transaction.
\<close>

definition withTransactionAsync ::
  "(main_state \<Rightarrow> (sql_error + unit) \<times> main_state) \<Rightarrow> main_state \<Rightarrow> (sql_error + unit) \<times> main_state" where
  "withTransactionAsync task s =
     (let s0 = s\<lparr>db := (db s)\<lparr>calls := calls (db s) @ [WithTransactionAsync]\<rparr>\<rparr> in
      case task s0 of
        (Inl e, s1) \<Rightarrow>
          (Inl e, s1\<lparr>db := (db s1)\<lparr>user_version := user_version (db s0), items := items (db s0)\<rparr>\<rparr>)
      | (Inr u, s1) \<Rightarrow> (Inr (), s1))"

text \<open>
  \<^verbatim>\<open>
  async function refetch() {
    await db.withTransactionAsync(async () => {
      setTodoItems(await db.getAllAsync("SELECT * FROM items WHERE done = ?", false));
      setDoneItems(await db.getAllAsync("SELECT * FROM items WHERE done = ?", true));
    });
  }
  \<close>
\<close>

definition refetch :: "faults \<Rightarrow> main_state \<Rightarrow> (sql_error + unit) \<times> main_state" where
  "refetch fault s =
     withTransactionAsync
       (\<lambda>s0. case getAllAsync fault False (db s0) of
                (Inl e, d1) \<Rightarrow> (Inl e, s0\<lparr>db := d1\<rparr>)
              | (Inr todo, d1) \<Rightarrow>
                  (let s1 = s0\<lparr>db := d1, todoItems := todo\<rparr> in
                   case getAllAsync fault True (db s1) of
                     (Inl e, d2) \<Rightarrow> (Inl e, s1\<lparr>db := d2\<rparr>)
                   | (Inr dn, d2) \<Rightarrow> (Inr (), s1\<lparr>db := d2, doneItems := dn\<rparr>)))
       s"

text \<open>
  \<^verbatim>\<open>const refetchItems = useCallback(() => { async function refetch() {...} refetch(); }, [db]);\<close>

  The promise of \<^verbatim>\<open>refetch()\<close> is dropped: a rejection never reaches the caller.
\<close>

definition refetchItems :: "faults \<Rightarrow> main_state \<Rightarrow> main_state" where
  "refetchItems fault s = snd (refetch fault s)"

text \<open>
  \<^verbatim>\<open>
  const sync = useCallback((refetch: boolean) => {
    db.syncLibSQL();
    if (refetch) { refetchItems(); }
  }, [db]);
  \<close>
\<close>

definition sync :: "replication \<Rightarrow> faults \<Rightarrow> bool \<Rightarrow> main_state \<Rightarrow> main_state" where
  "sync repl fault rf s =
     (let s1 = s\<lparr>db := syncLibSQL repl (db s)\<rparr> in
      if rf then refetchItems fault s1 else s1)"

text \<open>
  \<^verbatim>\<open>
  useEffect(() => {
    if (enablePollingSync) {
      const intervalId = setInterval(() => { sync(true); }, 2000);
      return () => { clearInterval(intervalId); };
    }
  }, [enablePollingSync]);
  \<close>

  The interval exists exactly while the flag is set, so a period of the clock runs
  \<open>sync True\<close> when the flag is set and nothing otherwise. \<open>ticks n\<close> is \<open>n\<close> periods.
\<close>

definition tick :: "replication \<Rightarrow> faults \<Rightarrow> main_state \<Rightarrow> main_state" where
  "tick repl fault s = (if enablePollingSync s then sync repl fault True s else s)"

fun ticks :: "replication \<Rightarrow> faults \<Rightarrow> nat \<Rightarrow> main_state \<Rightarrow> main_state" where
  "ticks repl fault 0 s = s"
| "ticks repl fault (Suc n) s = ticks repl fault n (tick repl fault s)"

text \<open>\<^verbatim>\<open>onValueChange={setEnablePollingSync}\<close> of the switch.\<close>

definition setEnablePollingSync :: "bool \<Rightarrow> main_state \<Rightarrow> main_state" where
  "setEnablePollingSync b s = s\<lparr>enablePollingSync := b\<rparr>"

text \<open>
  The handlers of the rendered tree. Each is an \<^verbatim>\<open>async\<close> arrow function whose promise
  React Native drops, so a rejected \<^verbatim>\<open>await\<close> ends the handler where it stands.

  \<^verbatim>\<open>
  onChangeText={setText}
  onSubmitEditing={async () => { await addItemAsync(db, text); refetchItems(); setText(""); }}
  onPressItem={async (id) => { await updateItemAsDoneAsync(db, id); refetchItems(); }}   // pending
  onPressItem={async (id) => { await deleteItemAsync(db, id); refetchItems(); }}         // completed
  \<close>
\<close>

definition setText :: "string \<Rightarrow> main_state \<Rightarrow> main_state" where
  "setText t s = s\<lparr>text_of := t\<rparr>"

definition onSubmitEditing :: "faults \<Rightarrow> main_state \<Rightarrow> main_state" where
  "onSubmitEditing fault s =
     (case addItemAsync fault (db s) (text_of s) of
        (Inl e, d1) \<Rightarrow> s\<lparr>db := d1\<rparr>
      | (Inr u, d1) \<Rightarrow> setText [] (refetchItems fault (s\<lparr>db := d1\<rparr>)))"

definition onPressTodoItem :: "faults \<Rightarrow> int \<Rightarrow> main_state \<Rightarrow> main_state" where
  "onPressTodoItem fault i s =
     (case updateItemAsDoneAsync fault (db s) i of
        (Inl e, d1) \<Rightarrow> s\<lparr>db := d1\<rparr>
      | (Inr u, d1) \<Rightarrow> refetchItems fault (s\<lparr>db := d1\<rparr>))"

definition onPressDoneItem :: "faults \<Rightarrow> int \<Rightarrow> main_state \<Rightarrow> main_state" where
  "onPressDoneItem fault i s =
     (case deleteItemAsync fault (db s) i of
        (Inl e, d1) \<Rightarrow> s\<lparr>db := d1\<rparr>
      | (Inr u, d1) \<Rightarrow> refetchItems fault (s\<lparr>db := d1\<rparr>))"

text \<open>
  \<^verbatim>\<open>
  <SQLiteProvider databaseName="offline.db" onInit={migrateDbIfNeeded} options={{ libSQLOptions }}>
    <Main />
  </SQLiteProvider>
  \<close>

  The provider renders \<^verbatim>\<open>Main\<close> only once \<^verbatim>\<open>onInit\<close> has resolved; a rejection is its
  error. The first effect of \<^verbatim>\<open>Main\<close> is \<^verbatim>\<open>refetchItems()\<close>.
\<close>

definition App :: "replication \<Rightarrow> faults \<Rightarrow> database \<Rightarrow> sql_error + main_state" where
  "App repl fault d =
     (case migrateDbIfNeeded repl fault d of
        (Inl e, d1) \<Rightarrow> Inl e
      | (Inr u, d1) \<Rightarrow>
          Inr (refetchItems fault
                 \<lparr>db = d1, text_of = [], todoItems = [], doneItems = [], enablePollingSync = False\<rparr>))"

section \<open>A sample store\<close>

text \<open>
  A database after the first migration holding one pending and one completed item, an
  engine that never fails a statement, and a replication primitive that always fails
  (the device is offline). The concrete instances below are stated on them.
\<close>

definition sample_rows :: "ItemEntity list" where
  "sample_rows = [\<lparr>id_of = 1, done_of = False, value_of = ''Buy milk''\<rparr>,
                  \<lparr>id_of = 2, done_of = True, value_of = ''Call home''\<rparr>]"

definition sample_db :: database where
  "sample_db = \<lparr>user_version = 1, items = Some sample_rows, calls = []\<rparr>"

text \<open>A database file that has just been created, and an engine that fails one statement.\<close>

definition fresh_db :: database where
  "fresh_db = \<lparr>user_version = 0, items = None, calls = []\<rparr>"

definition fault_on :: "statement \<Rightarrow> faults" where
  "fault_on bad stmt = (stmt = bad)"

definition sample_main :: main_state where
  "sample_main = \<lparr>db = sample_db, text_of = [], todoItems = [], doneItems = [], enablePollingSync = True\<rparr>"

definition no_fault :: faults where
  "no_fault stmt = False"

definition offline :: replication where
  "offline d = None"

text \<open>
  Two replication primitives that succeed: one pulls a record that was added on the
  remote side, the other brings the store of a remote that has never been migrated.
\<close>

definition remote_ahead :: replication where
  "remote_ahead d =
     Some \<lparr>user_version = 1,
           items = Some (sample_rows @ [\<lparr>id_of = 3, done_of = False, value_of = ''From remote''\<rparr>]),
           calls = []\<rparr>"

definition remote_reset :: replication where
  "remote_reset d = Some \<lparr>user_version = 0, items = None, calls = []\<rparr>"

section \<open>The engine, statement by statement\<close>

lemma fst_runAsync:
  "fst (runAsync fault stmt d) =
     (if fault stmt then Inl (StatementFailed stmt)
      else case execute stmt d of Inl e \<Rightarrow> Inl e | Inr d2 \<Rightarrow> Inr ())"
  by (cases stmt) (auto simp: runAsync_def Let_def split: option.splits sum.splits)

lemma items_runAsync:
  "items (snd (runAsync fault stmt d)) =
     (if fault stmt then items d
      else case execute stmt d of Inl e \<Rightarrow> items d | Inr d2 \<Rightarrow> items d2)"
  by (cases stmt) (auto simp: runAsync_def Let_def split: option.splits sum.splits)

lemma user_version_runAsync:
  "user_version (snd (runAsync fault stmt d)) =
     (if fault stmt then user_version d
      else case execute stmt d of Inl e \<Rightarrow> user_version d | Inr d2 \<Rightarrow> user_version d2)"
  by (cases stmt) (auto simp: runAsync_def Let_def split: option.splits sum.splits)

lemma calls_runAsync:
  "calls (snd (runAsync fault stmt d)) = calls d @ [Sql stmt]"
  by (cases stmt) (auto simp: runAsync_def Let_def split: option.splits sum.splits)

text \<open>The rowid of an insert is not the id of any row of the table.\<close>

lemma next_rowid_fresh: "next_rowid rows \<notin> id_of ` set rows"
proof
  assume "next_rowid rows \<in> id_of ` set rows"
  then obtain r where r: "r \<in> set rows" "id_of r = next_rowid rows"
    by auto
  then have ne: "rows \<noteq> []"
    by auto
  have "id_of r \<le> Max (id_of ` set rows)"
    using r(1) by (intro Max_ge) auto
  with r(2) ne show False
    by (simp add: next_rowid_def)
qed

section \<open>Adding an item\<close>

text \<open>
  Claim C7. \<open>add("")\<close> is a silent no-op: for every database, \<open>addItemAsync\<close> with the
  empty text returns without an error and returns the database as it was (no statement
  is sent, no record is created), so both listings, pending and completed, give what
  they gave before.
\<close>

theorem add_empty_text_is_noop:
  "addItemAsync fault d [] = (Inr (), d)
   \<and> getAllAsync fault' dn (snd (addItemAsync fault d [])) = getAllAsync fault' dn d"
  by (simp add: addItemAsync_def)

text \<open>
  Claim C4. For every non-empty text \<open>t\<close> and every database whose table \<open>items\<close>
  exists, \<open>addItemAsync\<close> (when the engine does not fail the insert) returns without an
  error and appends exactly one record \<open>r\<close> with \<open>value = t\<close>, \<open>done = false\<close> and an id
  that no earlier record has. The pending listing after the call is the pending listing
  before it followed by \<open>r\<close>; the completed listing and the schema version are as before.
\<close>

theorem add_inserts_one_pending_record:
  assumes "t \<noteq> []"
      and "items d = Some rows"
      and "\<not> fault (InsertItem False t)"
      and "\<not> fault' (SelectByDone False)"
      and "\<not> fault' (SelectByDone True)"
  shows "\<exists>d' r. addItemAsync fault d t = (Inr (), d')
           \<and> items d' = Some (rows @ [r])
           \<and> value_of r = t \<and> done_of r = False \<and> id_of r \<notin> id_of ` set rows
           \<and> fst (getAllAsync fault' False d') = Inr (filter (\<lambda>x. done_of x = False) rows @ [r])
           \<and> fst (getAllAsync fault' True d') = Inr (filter (\<lambda>x. done_of x = True) rows)
           \<and> user_version d' = user_version d"
  using assms next_rowid_fresh [of rows]
  by (simp add: addItemAsync_def runAsync_def getAllAsync_def Let_def)

theorem add_inserts_one_pending_record_witness:
  "''Buy milk'' \<noteq> []
   \<and> items \<lparr>user_version = 1, items = Some [\<lparr>id_of = 1, done_of = True, value_of = ''tea''\<rparr>], calls = []\<rparr>
       = Some [\<lparr>id_of = 1, done_of = True, value_of = ''tea''\<rparr>]
   \<and> (\<exists>d' r. addItemAsync (\<lambda>s. False)
         \<lparr>user_version = 1, items = Some [\<lparr>id_of = 1, done_of = True, value_of = ''tea''\<rparr>], calls = []\<rparr>
         ''Buy milk'' = (Inr (), d')
        \<and> items d' = Some ([\<lparr>id_of = 1, done_of = True, value_of = ''tea''\<rparr>] @ [r])
        \<and> value_of r = ''Buy milk'' \<and> done_of r = False
        \<and> id_of r \<notin> id_of ` set [\<lparr>id_of = 1, done_of = True, value_of = ''tea''\<rparr>]
        \<and> fst (getAllAsync (\<lambda>s. False) False d')
            = Inr (filter (\<lambda>x. done_of x = False) [\<lparr>id_of = 1, done_of = True, value_of = ''tea''\<rparr>] @ [r])
        \<and> fst (getAllAsync (\<lambda>s. False) True d')
            = Inr (filter (\<lambda>x. done_of x = True) [\<lparr>id_of = 1, done_of = True, value_of = ''tea''\<rparr>])
        \<and> user_version d' = 1)"
  using add_inserts_one_pending_record
    [of "''Buy milk''"
        "\<lparr>user_version = 1, items = Some [\<lparr>id_of = 1, done_of = True, value_of = ''tea''\<rparr>], calls = []\<rparr>"
        "[\<lparr>id_of = 1, done_of = True, value_of = ''tea''\<rparr>]"
        "\<lambda>s. False" "\<lambda>s. False"]
  by simp

section \<open>Marking an item as done\<close>

lemma update_absent_id:
  "i \<notin> id_of ` set rows \<Longrightarrow> map (\<lambda>r. if id_of r = i then r\<lparr>done_of := dn\<rparr> else r) rows = rows"
  by (induction rows) auto

lemma delete_absent_id:
  "i \<notin> id_of ` set rows \<Longrightarrow> filter (\<lambda>r. id_of r \<noteq> i) rows = rows"
  by (induction rows) auto

lemma update_twice:
  "map (\<lambda>r. if id_of r = i then r\<lparr>done_of := dn\<rparr> else r)
     (map (\<lambda>r. if id_of r = i then r\<lparr>done_of := dn\<rparr> else r) rows)
   = map (\<lambda>r. if id_of r = i then r\<lparr>done_of := dn\<rparr> else r) rows"
  by (induction rows) auto

lemma update_ids:
  "map id_of (map (\<lambda>r. if id_of r = i then r\<lparr>done_of := dn\<rparr> else r) rows) = map id_of rows"
  by (induction rows) auto

lemma update_others:
  "filter (\<lambda>r. id_of r \<noteq> i) (map (\<lambda>r. if id_of r = i then r\<lparr>done_of := dn\<rparr> else r) rows)
   = filter (\<lambda>r. id_of r \<noteq> i) rows"
  by (induction rows) auto

lemma update_pending:
  "filter (\<lambda>r. done_of r = False) (map (\<lambda>r. if id_of r = i then r\<lparr>done_of := True\<rparr> else r) rows)
   = filter (\<lambda>r. id_of r \<noteq> i) (filter (\<lambda>r. done_of r = False) rows)"
  by (induction rows) auto

lemma update_completed_absent:
  "i \<notin> id_of ` set rows \<Longrightarrow>
   filter (\<lambda>r. done_of r = True) (map (\<lambda>r. if id_of r = i then r\<lparr>done_of := True\<rparr> else r) rows)
   = filter (\<lambda>r. done_of r = True) rows"
  by (simp add: update_absent_id)

lemma only_row_with_id:
  "distinct (map id_of xs) \<Longrightarrow> r \<in> set xs \<Longrightarrow> filter (\<lambda>x. id_of x = id_of r) xs = [r]"
proof (induction xs)
  case Nil
  then show ?case by simp
next
  case (Cons a xs)
  show ?case
  proof (cases "a = r")
    case True
    with Cons.prems have "\<forall>x\<in>set xs. id_of x \<noteq> id_of r"
      by (auto simp: image_iff)
    with True show ?thesis
      by simp
  next
    case False
    with Cons.prems have "r \<in> set xs" "id_of a \<noteq> id_of r"
      by auto
    with Cons show ?thesis
      by simp
  qed
qed

lemma length_without_id:
  "distinct (map id_of xs) \<Longrightarrow> r \<in> set xs \<Longrightarrow>
   Suc (length (filter (\<lambda>x. id_of x \<noteq> id_of r) xs)) = length xs"
proof -
  assume a: "distinct (map id_of xs)" "r \<in> set xs"
  have "length xs = length (filter (\<lambda>x. id_of x = id_of r) xs)
                  + length (filter (\<lambda>x. \<not> id_of x = id_of r) xs)"
    by (rule sum_length_filter_compl [symmetric])
  with only_row_with_id [OF a] show ?thesis
    by simp
qed

lemma update_distinct:
  "distinct (map id_of rows) \<Longrightarrow>
   distinct (map id_of (map (\<lambda>r. if id_of r = i then r\<lparr>done_of := dn\<rparr> else r) rows))"
  by (simp only: update_ids)

lemma update_completed_with_id:
  assumes "distinct (map id_of rows)" and "r \<in> set rows" and "id_of r = i"
  shows "filter (\<lambda>x. id_of x = i)
           (filter (\<lambda>x. done_of x = True) (map (\<lambda>r. if id_of r = i then r\<lparr>done_of := True\<rparr> else r) rows))
         = [r\<lparr>done_of := True\<rparr>]"
proof -
  let ?rows1 = "map (\<lambda>r. if id_of r = i then r\<lparr>done_of := True\<rparr> else r) rows"
  let ?done1 = "filter (\<lambda>x. done_of x = True) ?rows1"
  have "distinct (map id_of ?rows1)"
    using assms(1) by (rule update_distinct)
  then have d: "distinct (map id_of ?done1)"
    by (rule distinct_map_filter)
  have m: "r\<lparr>done_of := True\<rparr> \<in> set ?done1"
    using assms(2,3) by force
  have "filter (\<lambda>x. id_of x = id_of (r\<lparr>done_of := True\<rparr>)) ?done1 = [r\<lparr>done_of := True\<rparr>]"
    using d m by (rule only_row_with_id)
  with assms(3) show ?thesis
    by simp
qed

lemma update_completed_others:
  "filter (\<lambda>x. id_of x \<noteq> i)
     (filter (\<lambda>x. done_of x = True) (map (\<lambda>r. if id_of r = i then r\<lparr>done_of := True\<rparr> else r) rows))
   = filter (\<lambda>x. id_of x \<noteq> i) (filter (\<lambda>x. done_of x = True) rows)"
  by (induction rows) auto


lemma completed_without_pending_id:
  assumes "distinct (map id_of rows)" and "r \<in> set rows" and "done_of r = False"
  shows "filter (\<lambda>x. id_of x \<noteq> id_of r) (filter (\<lambda>x. done_of x = True) rows)
         = filter (\<lambda>x. done_of x = True) rows"
proof -
  have "\<forall>x\<in>set rows. done_of x = True \<longrightarrow> id_of x \<noteq> id_of r"
  proof (intro ballI impI notI)
    fix x assume x: "x \<in> set rows" "done_of x = True" "id_of x = id_of r"
    from assms(1) have "inj_on id_of (set rows)"
      by (simp add: distinct_map)
    with x(1,3) assms(2) have "x = r"
      by (auto dest: inj_onD)
    with x(2) assms(3) show False
      by simp
  qed
  then show ?thesis
    by (auto intro: filter_cong simp: filter_id_conv)
qed

text \<open>
  Claim C5. In a database whose table \<open>items\<close> exists with pairwise distinct ids
  (\<open>id\<close> is the primary key), \<open>updateItemAsDoneAsync\<close> on id \<open>i\<close> (when the engine does
  not fail the update) returns without an error. If a record \<open>r\<close> with id \<open>i\<close> is
  pending, then afterwards the pending listing is the old one without id \<open>i\<close> and is
  one shorter, the completed listing holds exactly one record with id \<open>i\<close>, namely \<open>r\<close>
  with \<open>done = true\<close>, its other records are the old completed listing, and it is one
  longer. A second call returns without an error and leaves the store as the first call
  left it. If no record has id \<open>i\<close>, the call leaves the store as it was.
\<close>

theorem markDone_moves_once_and_is_idempotent:
  assumes "items d = Some rows"
      and "distinct (map id_of rows)"
      and "\<not> fault (UpdateDone True i)"
  shows "\<exists>d1 d2 rows1.
           updateItemAsDoneAsync fault d i = (Inr (), d1)
         \<and> updateItemAsDoneAsync fault d1 i = (Inr (), d2)
         \<and> store d2 = store d1
         \<and> items d1 = Some rows1
         \<and> user_version d1 = user_version d
         \<and> (\<forall>r\<in>set rows. id_of r = i \<and> done_of r = False \<longrightarrow>
               filter (\<lambda>x. done_of x = False) rows1
                 = filter (\<lambda>x. id_of x \<noteq> i) (filter (\<lambda>x. done_of x = False) rows)
             \<and> Suc (length (filter (\<lambda>x. done_of x = False) rows1))
                 = length (filter (\<lambda>x. done_of x = False) rows)
             \<and> filter (\<lambda>x. id_of x = i) (filter (\<lambda>x. done_of x = True) rows1) = [r\<lparr>done_of := True\<rparr>]
             \<and> filter (\<lambda>x. id_of x \<noteq> i) (filter (\<lambda>x. done_of x = True) rows1)
                 = filter (\<lambda>x. done_of x = True) rows
             \<and> length (filter (\<lambda>x. done_of x = True) rows1)
                 = Suc (length (filter (\<lambda>x. done_of x = True) rows)))
         \<and> (i \<notin> id_of ` set rows \<longrightarrow> store d1 = store d)"
proof -
  let ?mark = "map (\<lambda>r. if id_of r = i then r\<lparr>done_of := True\<rparr> else r)"
  let ?d1 = "d\<lparr>calls := calls d @ [Sql (UpdateDone True i)], items := Some (?mark rows)\<rparr>"
  let ?d2 = "?d1\<lparr>calls := calls ?d1 @ [Sql (UpdateDone True i)], items := Some (?mark (?mark rows))\<rparr>"
  have r1: "updateItemAsDoneAsync fault d i = (Inr (), ?d1)"
    using assms(1,3) by (simp add: updateItemAsDoneAsync_def runAsync_def Let_def)
  have r2: "updateItemAsDoneAsync fault ?d1 i = (Inr (), ?d2)"
    using assms(3) by (simp add: updateItemAsDoneAsync_def runAsync_def Let_def)
  have idem: "store ?d2 = store ?d1"
    by (simp add: store_def update_twice)
  have absent: "i \<notin> id_of ` set rows \<longrightarrow> store ?d1 = store d"
    using assms(1) by (simp add: store_def update_absent_id)
  have moved: "\<forall>r\<in>set rows. id_of r = i \<and> done_of r = False \<longrightarrow>
               filter (\<lambda>x. done_of x = False) (?mark rows)
                 = filter (\<lambda>x. id_of x \<noteq> i) (filter (\<lambda>x. done_of x = False) rows)
             \<and> Suc (length (filter (\<lambda>x. done_of x = False) (?mark rows)))
                 = length (filter (\<lambda>x. done_of x = False) rows)
             \<and> filter (\<lambda>x. id_of x = i) (filter (\<lambda>x. done_of x = True) (?mark rows)) = [r\<lparr>done_of := True\<rparr>]
             \<and> filter (\<lambda>x. id_of x \<noteq> i) (filter (\<lambda>x. done_of x = True) (?mark rows))
                 = filter (\<lambda>x. done_of x = True) rows
             \<and> length (filter (\<lambda>x. done_of x = True) (?mark rows))
                 = Suc (length (filter (\<lambda>x. done_of x = True) rows))"
  proof (intro ballI impI)
    fix r assume r: "r \<in> set rows" and ri: "id_of r = i \<and> done_of r = False"
    let ?pend0 = "filter (\<lambda>x. done_of x = False) rows"
    let ?pend1 = "filter (\<lambda>x. done_of x = False) (?mark rows)"
    let ?comp0 = "filter (\<lambda>x. done_of x = True) rows"
    let ?comp1 = "filter (\<lambda>x. done_of x = True) (?mark rows)"
    have p: "?pend1 = filter (\<lambda>x. id_of x \<noteq> i) ?pend0"
      by (rule update_pending)
    have "distinct (map id_of ?pend0)"
      using assms(2) by (rule distinct_map_filter)
    moreover have "r \<in> set ?pend0"
      using r ri by simp
    ultimately have "Suc (length (filter (\<lambda>x. id_of x \<noteq> id_of r) ?pend0)) = length ?pend0"
      by (rule length_without_id)
    with p ri have pl: "Suc (length ?pend1) = length ?pend0"
      by simp
    have c: "filter (\<lambda>x. id_of x = i) ?comp1 = [r\<lparr>done_of := True\<rparr>]"
      using assms(2) r ri by (intro update_completed_with_id) auto
    have "filter (\<lambda>x. id_of x \<noteq> i) ?comp1 = filter (\<lambda>x. id_of x \<noteq> i) ?comp0"
      by (rule update_completed_others)
    also have "\<dots> = ?comp0"
      using completed_without_pending_id [OF assms(2) r] ri by simp
    finally have co: "filter (\<lambda>x. id_of x \<noteq> i) ?comp1 = ?comp0" .
    have "length ?comp1 = length (filter (\<lambda>x. id_of x = i) ?comp1)
                        + length (filter (\<lambda>x. \<not> id_of x = i) ?comp1)"
      by (rule sum_length_filter_compl [symmetric])
    with c co have cl: "length ?comp1 = Suc (length ?comp0)"
      by simp
    from p pl c co cl
    show "?pend1 = filter (\<lambda>x. id_of x \<noteq> i) ?pend0
        \<and> Suc (length ?pend1) = length ?pend0
        \<and> filter (\<lambda>x. id_of x = i) ?comp1 = [r\<lparr>done_of := True\<rparr>]
        \<and> filter (\<lambda>x. id_of x \<noteq> i) ?comp1 = ?comp0
        \<and> length ?comp1 = Suc (length ?comp0)"
      by blast
  qed
  have i1: "items ?d1 = Some (?mark rows)" and v1: "user_version ?d1 = user_version d"
    by simp_all
  from r1 r2 idem i1 v1 moved absent show ?thesis
    by blast
qed


theorem markDone_moves_once_and_is_idempotent_witness:
  "items sample_db = Some sample_rows
   \<and> distinct (map id_of sample_rows)
   \<and> \<not> no_fault (UpdateDone True 1)
   \<and> (\<exists>d1 d2 rows1.
           updateItemAsDoneAsync no_fault sample_db 1 = (Inr (), d1)
         \<and> updateItemAsDoneAsync no_fault d1 1 = (Inr (), d2)
         \<and> store d2 = store d1
         \<and> items d1 = Some rows1
         \<and> user_version d1 = user_version sample_db
         \<and> (\<forall>r\<in>set sample_rows. id_of r = 1 \<and> done_of r = False \<longrightarrow>
               filter (\<lambda>x. done_of x = False) rows1
                 = filter (\<lambda>x. id_of x \<noteq> 1) (filter (\<lambda>x. done_of x = False) sample_rows)
             \<and> Suc (length (filter (\<lambda>x. done_of x = False) rows1))
                 = length (filter (\<lambda>x. done_of x = False) sample_rows)
             \<and> filter (\<lambda>x. id_of x = 1) (filter (\<lambda>x. done_of x = True) rows1) = [r\<lparr>done_of := True\<rparr>]
             \<and> filter (\<lambda>x. id_of x \<noteq> 1) (filter (\<lambda>x. done_of x = True) rows1)
                 = filter (\<lambda>x. done_of x = True) sample_rows
             \<and> length (filter (\<lambda>x. done_of x = True) rows1)
                 = Suc (length (filter (\<lambda>x. done_of x = True) sample_rows)))
         \<and> (1 \<notin> id_of ` set sample_rows \<longrightarrow> store d1 = store sample_db))"
proof -
  have h1: "items sample_db = Some sample_rows"
    by (simp add: sample_db_def)
  have h2: "distinct (map id_of sample_rows)"
    by (simp add: sample_rows_def)
  have h3: "\<not> no_fault (UpdateDone True 1)"
    by (simp add: no_fault_def)
  show ?thesis
    using h1 h2 h3 markDone_moves_once_and_is_idempotent
      [where d = sample_db and rows = sample_rows and fault = no_fault and i = 1, OF h1 h2 h3] by blast
qed

section \<open>Deleting an item\<close>

text \<open>
  Claim C6. In a database whose table \<open>items\<close> exists, \<open>deleteItemAsync\<close> on id \<open>i\<close>
  (when the engine does not fail the delete) returns without an error; afterwards no
  record has id \<open>i\<close>, and each of the two listings (pending, completed) is the old one
  without the records of id \<open>i\<close>. If no record had id \<open>i\<close>, the store is as it was.
\<close>

theorem delete_removes_the_record:
  assumes "items d = Some rows" and "\<not> fault (DeleteItem i)"
  shows "\<exists>d' rows'. deleteItemAsync fault d i = (Inr (), d')
          \<and> items d' = Some rows' \<and> user_version d' = user_version d
          \<and> i \<notin> id_of ` set rows'
          \<and> (\<forall>dn. filter (\<lambda>x. done_of x = dn) rows'
                    = filter (\<lambda>x. id_of x \<noteq> i) (filter (\<lambda>x. done_of x = dn) rows))
          \<and> (i \<notin> id_of ` set rows \<longrightarrow> store d' = store d)"
proof -
  let ?d' = "d\<lparr>calls := calls d @ [Sql (DeleteItem i)], items := Some (filter (\<lambda>r. id_of r \<noteq> i) rows)\<rparr>"
  have r: "deleteItemAsync fault d i = (Inr (), ?d')"
    using assms by (simp add: deleteItemAsync_def runAsync_def Let_def)
  have gone: "i \<notin> id_of ` set (filter (\<lambda>r. id_of r \<noteq> i) rows)"
    by auto
  have parts: "\<forall>dn. filter (\<lambda>x. done_of x = dn) (filter (\<lambda>r. id_of r \<noteq> i) rows)
                    = filter (\<lambda>x. id_of x \<noteq> i) (filter (\<lambda>x. done_of x = dn) rows)"
    by (auto intro: filter_cong)
  have absent: "i \<notin> id_of ` set rows \<longrightarrow> store ?d' = store d"
    using assms(1) by (simp add: store_def delete_absent_id)
  have "items ?d' = Some (filter (\<lambda>r. id_of r \<noteq> i) rows)" "user_version ?d' = user_version d"
    by simp_all
  with r gone parts absent show ?thesis
    by blast
qed

theorem delete_removes_the_record_witness:
  "items sample_db = Some sample_rows
   \<and> \<not> no_fault (DeleteItem 2)
   \<and> (\<exists>d' rows'. deleteItemAsync no_fault sample_db 2 = (Inr (), d')
          \<and> items d' = Some rows' \<and> user_version d' = user_version sample_db
          \<and> 2 \<notin> id_of ` set rows'
          \<and> (\<forall>dn. filter (\<lambda>x. done_of x = dn) rows'
                    = filter (\<lambda>x. id_of x \<noteq> 2) (filter (\<lambda>x. done_of x = dn) sample_rows))
          \<and> (2 \<notin> id_of ` set sample_rows \<longrightarrow> store d' = store sample_db))"
proof -
  have h1: "items sample_db = Some sample_rows"
    by (simp add: sample_db_def)
  have h2: "\<not> no_fault (DeleteItem 2)"
    by (simp add: no_fault_def)
  show ?thesis
    using h1 h2 delete_removes_the_record
      [where d = sample_db and rows = sample_rows and fault = no_fault and i = 2, OF h1 h2] by blast
qed

section \<open>What the operations leave alone\<close>

text \<open>
  Claim C10. In a database whose table \<open>items\<close> exists, whether or not the engine fails
  the statement: after \<open>updateItemAsDoneAsync\<close> on \<open>i\<close> and after \<open>deleteItemAsync\<close> on
  \<open>i\<close> the records whose id is not \<open>i\<close> are the same records in the same order as
  before, and after \<open>addItemAsync\<close> the table is the old table followed by new records
  whose ids no old record has.
\<close>

theorem crud_operations_frame:
  assumes "items d = Some rows"
  shows "\<exists>rows1 rows2 rows3 new.
           items (snd (updateItemAsDoneAsync fault d i)) = Some rows1
         \<and> filter (\<lambda>x. id_of x \<noteq> i) rows1 = filter (\<lambda>x. id_of x \<noteq> i) rows
         \<and> items (snd (deleteItemAsync fault d i)) = Some rows2
         \<and> filter (\<lambda>x. id_of x \<noteq> i) rows2 = filter (\<lambda>x. id_of x \<noteq> i) rows
         \<and> items (snd (addItemAsync fault d t)) = Some rows3
         \<and> rows3 = rows @ new
         \<and> id_of ` set new \<inter> id_of ` set rows = {}"
proof -
  have u: "\<exists>rows1. items (snd (updateItemAsDoneAsync fault d i)) = Some rows1
         \<and> filter (\<lambda>x. id_of x \<noteq> i) rows1 = filter (\<lambda>x. id_of x \<noteq> i) rows"
    using assms by (simp add: updateItemAsDoneAsync_def items_runAsync update_others)
  have dl: "\<exists>rows2. items (snd (deleteItemAsync fault d i)) = Some rows2
         \<and> filter (\<lambda>x. id_of x \<noteq> i) rows2 = filter (\<lambda>x. id_of x \<noteq> i) rows"
    using assms by (simp add: deleteItemAsync_def items_runAsync)
  have a: "\<exists>rows3 new. items (snd (addItemAsync fault d t)) = Some rows3
         \<and> rows3 = rows @ new \<and> id_of ` set new \<inter> id_of ` set rows = {}"
    using assms next_rowid_fresh [of rows]
    by (simp add: addItemAsync_def items_runAsync)
  from u dl a show ?thesis
    by blast
qed

theorem crud_operations_frame_witness:
  "items sample_db = Some sample_rows
   \<and> (\<exists>rows1 rows2 rows3 new.
           items (snd (updateItemAsDoneAsync no_fault sample_db 1)) = Some rows1
         \<and> filter (\<lambda>x. id_of x \<noteq> 1) rows1 = filter (\<lambda>x. id_of x \<noteq> 1) sample_rows
         \<and> items (snd (deleteItemAsync no_fault sample_db 1)) = Some rows2
         \<and> filter (\<lambda>x. id_of x \<noteq> 1) rows2 = filter (\<lambda>x. id_of x \<noteq> 1) sample_rows
         \<and> items (snd (addItemAsync no_fault sample_db ''Walk'')) = Some rows3
         \<and> rows3 = sample_rows @ new
         \<and> id_of ` set new \<inter> id_of ` set sample_rows = {})"
proof -
  have h1: "items sample_db = Some sample_rows"
    by (simp add: sample_db_def)
  show ?thesis
    using h1 crud_operations_frame
      [where d = sample_db and rows = sample_rows and fault = no_fault and i = 1 and t = "''Walk''", OF h1] by blast
qed

section \<open>Listing by status\<close>

lemma rowid_ordered_less_next:
  assumes "r \<in> set rows"
  shows "id_of r < next_rowid rows"
proof -
  from assms have ne: "rows \<noteq> []"
    by auto
  have "id_of r \<le> Max (id_of ` set rows)"
    using assms by (intro Max_ge) auto
  with ne show ?thesis
    by (simp add: next_rowid_def)
qed

lemma rowid_ordered_empty: "rowid_ordered []"
  by (simp add: rowid_ordered_def)

lemma rowid_ordered_insert:
  "rowid_ordered rows \<Longrightarrow>
   rowid_ordered (rows @ [\<lparr>id_of = next_rowid rows, done_of = dn, value_of = v\<rparr>])"
  by (auto simp: rowid_ordered_def sorted_wrt_append rowid_ordered_less_next)

lemma rowid_ordered_update:
  "rowid_ordered rows \<Longrightarrow>
   rowid_ordered (map (\<lambda>r. if id_of r = i then r\<lparr>done_of := dn\<rparr> else r) rows)"
  unfolding rowid_ordered_def by (simp only: update_ids)

lemma rowid_ordered_filter:
  "rowid_ordered rows \<Longrightarrow> rowid_ordered (filter P rows)"
  unfolding rowid_ordered_def by (induction rows) auto

lemma rowid_ordered_distinct:
  "rowid_ordered rows \<Longrightarrow> distinct (map id_of rows)"
  by (simp add: rowid_ordered_def strict_sorted_iff)

lemma execute_table_ordered:
  "table_ordered d \<Longrightarrow> execute stmt d = Inr d' \<Longrightarrow> table_ordered d'"
  by (cases stmt)
     (auto simp: table_ordered_def rowid_ordered_empty rowid_ordered_insert rowid_ordered_update
                 rowid_ordered_filter
           split: option.splits)

lemma runAsync_table_ordered:
  "table_ordered d \<Longrightarrow> table_ordered (snd (runAsync fault stmt d))"
proof -
  assume a: "table_ordered d"
  let ?d1 = "d\<lparr>calls := calls d @ [Sql stmt]\<rparr>"
  have t1: "table_ordered ?d1"
    using a by (simp add: table_ordered_def)
  show ?thesis
  proof (cases "fault stmt")
    case True
    with t1 show ?thesis by (simp add: runAsync_def Let_def)
  next
    case False
    show ?thesis
    proof (cases "execute stmt ?d1")
      case (Inl e)
      with False t1 show ?thesis by (simp add: runAsync_def Let_def)
    next
      case (Inr d2)
      with t1 have "table_ordered d2" by (rule execute_table_ordered)
      with False Inr show ?thesis by (simp add: runAsync_def Let_def)
    qed
  qed
qed

lemma crud_table_ordered:
  assumes "table_ordered d"
  shows "table_ordered (snd (addItemAsync fault d t))"
    and "table_ordered (snd (updateItemAsDoneAsync fault d i))"
    and "table_ordered (snd (deleteItemAsync fault d i))"
  using assms
  by (simp_all add: addItemAsync_def updateItemAsDoneAsync_def deleteItemAsync_def
        runAsync_table_ordered)

lemma execAsync_eq_runAsync: "execAsync = runAsync"
  by (intro ext) (simp add: execAsync_def runAsync_def)

lemma migrate_table_ordered:
  assumes "table_ordered (syncLibSQL repl d)"
  shows "table_ordered (snd (migrateDbIfNeeded repl fault d))"
proof -
  let ?d2 = "(syncLibSQL repl d)\<lparr>calls := calls (syncLibSQL repl d) @ [Sql PragmaGetUserVersion]\<rparr>"
  let ?c = "execAsync fault CreateTableItems ?d2"
  have r: "\<And>x stmt. table_ordered x \<Longrightarrow> table_ordered (snd (execAsync fault stmt x))"
    by (simp add: execAsync_eq_runAsync runAsync_table_ordered)
  have t2: "table_ordered ?d2"
    using assms by (simp add: table_ordered_def)
  then have t3: "table_ordered (snd ?c)"
    by (rule r)
  then have t4: "table_ordered (snd (execAsync fault (PragmaSetUserVersion DATABASE_VERSION) (snd ?c)))"
    by (rule r)
  have t5: "table_ordered (snd (execAsync fault (PragmaSetUserVersion DATABASE_VERSION) ?d2))"
    using t2 by (rule r)
  show ?thesis
    using t2 t3 t4 t5
    by (cases ?c) (auto simp: migrateDbIfNeeded_def getFirstAsync_def Let_def split: sum.splits)
qed

text \<open>
  Claim C8. In a database whose table \<open>items\<close> exists in rowid order, the
  \<^verbatim>\<open>SELECT * FROM items WHERE done = ?\<close> of \<open>refetchItems\<close> with flag \<open>dn\<close> (when the
  engine does not fail it) returns exactly the records whose \<open>done\<close> equals \<open>dn\<close>, each
  once, in strictly ascending id order, and leaves the store as it was. Rowid order is
  kept by every statement (\<open>execute_table_ordered\<close>), and an insert puts its record
  last, so ascending id is insertion order.
\<close>

theorem select_by_done_exact_in_id_order:
  assumes "items d = Some rows"
      and "rowid_ordered rows"
      and "\<not> fault (SelectByDone dn)"
  shows "\<exists>xs. fst (getAllAsync fault dn d) = Inr xs
          \<and> set xs = {r \<in> set rows. done_of r = dn}
          \<and> sorted_wrt (<) (map id_of xs)
          \<and> distinct xs
          \<and> store (snd (getAllAsync fault dn d)) = store d"
proof -
  let ?xs = "filter (\<lambda>r. done_of r = dn) rows"
  have r: "fst (getAllAsync fault dn d) = Inr ?xs"
    using assms(1,3) by (simp add: getAllAsync_def Let_def)
  have s: "store (snd (getAllAsync fault dn d)) = store d"
    using assms(1,3) by (simp add: getAllAsync_def Let_def store_def)
  have o: "sorted_wrt (<) (map id_of ?xs)"
    using rowid_ordered_filter [OF assms(2)] by (simp add: rowid_ordered_def)
  then have "distinct (map id_of ?xs)"
    by (simp add: strict_sorted_iff)
  then have dx: "distinct ?xs"
    by (auto simp: distinct_map)
  have "set ?xs = {r \<in> set rows. done_of r = dn}"
    by auto
  with r s o dx show ?thesis
    by blast
qed

theorem select_by_done_exact_in_id_order_witness:
  "items sample_db = Some sample_rows
   \<and> rowid_ordered sample_rows
   \<and> \<not> no_fault (SelectByDone False)
   \<and> (\<exists>xs. fst (getAllAsync no_fault False sample_db) = Inr xs
          \<and> set xs = {r \<in> set sample_rows. done_of r = False}
          \<and> sorted_wrt (<) (map id_of xs)
          \<and> distinct xs
          \<and> store (snd (getAllAsync no_fault False sample_db)) = store sample_db)"
proof -
  have h1: "items sample_db = Some sample_rows"
    by (simp add: sample_db_def)
  have h2: "rowid_ordered sample_rows"
    by (simp add: sample_rows_def rowid_ordered_def)
  have h3: "\<not> no_fault (SelectByDone False)"
    by (simp add: no_fault_def)
  show ?thesis
    using h1 h2 h3 select_by_done_exact_in_id_order
      [where d = sample_db and rows = sample_rows and fault = no_fault and dn = False, OF h1 h2 h3]
    by blast
qed

section \<open>Schema migration\<close>

lemma syncLibSQL_calls: "calls (syncLibSQL repl d) = calls d @ [SyncLibSQL]"
  by (simp add: syncLibSQL_def Let_def split: option.splits)

lemma syncLibSQL_failed: "repl d = None \<Longrightarrow> store (syncLibSQL repl d) = store d"
  by (simp add: syncLibSQL_def Let_def store_def)

lemma migrate_current:
  assumes "DATABASE_VERSION \<le> user_version (syncLibSQL repl d)"
  shows "snd (migrateDbIfNeeded repl fault d)
           = (syncLibSQL repl d)\<lparr>calls := calls d @ [SyncLibSQL, Sql PragmaGetUserVersion]\<rparr>"
    and "\<not> fault PragmaGetUserVersion \<Longrightarrow> fst (migrateDbIfNeeded repl fault d) = Inr ()"
  using assms
  by (simp_all add: migrateDbIfNeeded_def getFirstAsync_def Let_def syncLibSQL_calls)

lemma migrate_success_version:
  "fst (migrateDbIfNeeded repl fault d) = Inr () \<Longrightarrow>
   DATABASE_VERSION \<le> user_version (snd (migrateDbIfNeeded repl fault d))"
  by (auto simp: migrateDbIfNeeded_def getFirstAsync_def execAsync_def Let_def
           split: if_splits sum.splits option.splits prod.splits)

lemma migrate_failure_version:
  "fst (migrateDbIfNeeded repl fault d) = Inl e \<Longrightarrow>
   user_version (snd (migrateDbIfNeeded repl fault d)) = user_version (syncLibSQL repl d)"
  by (auto simp: migrateDbIfNeeded_def getFirstAsync_def execAsync_def Let_def
           split: if_splits sum.splits option.splits prod.splits)

lemma migrate_failing_statement:
  assumes "user_version (syncLibSQL repl d) < DATABASE_VERSION"
      and "fault PragmaGetUserVersion
           \<or> (user_version (syncLibSQL repl d) = 0 \<and> fault CreateTableItems)
           \<or> fault (PragmaSetUserVersion DATABASE_VERSION)"
  shows "\<exists>stmt. fault stmt \<and> fst (migrateDbIfNeeded repl fault d) = Inl (StatementFailed stmt)"
  using assms
  by (auto simp: migrateDbIfNeeded_def getFirstAsync_def execAsync_def Let_def
           split: if_splits sum.splits option.splits prod.splits)

text \<open>
  Claim C1. Let the version that \<open>migrateDbIfNeeded\<close> reads (the persisted version once
  the opening \<open>syncLibSQL\<close> call is over) be below \<open>DATABASE_VERSION\<close>, and let the
  engine fail one of the statements the call then sends: the version read, the
  \<^verbatim>\<open>CREATE TABLE\<close> (sent at version 0) or the version write. Then the call ends with
  the error of a failed statement, and the persisted version afterwards is the version
  it read; when the sync failed as well, that is the version before the call.
\<close>

theorem failed_migration_keeps_version:
  assumes "user_version (syncLibSQL repl d) < DATABASE_VERSION"
      and "fault PragmaGetUserVersion
           \<or> (user_version (syncLibSQL repl d) = 0 \<and> fault CreateTableItems)
           \<or> fault (PragmaSetUserVersion DATABASE_VERSION)"
  shows "(\<exists>stmt. fault stmt \<and> fst (migrateDbIfNeeded repl fault d) = Inl (StatementFailed stmt))
       \<and> user_version (snd (migrateDbIfNeeded repl fault d)) = user_version (syncLibSQL repl d)
       \<and> (repl d = None \<longrightarrow> user_version (snd (migrateDbIfNeeded repl fault d)) = user_version d)"
proof -
  from migrate_failing_statement [where repl = repl and d = d and fault = fault, OF assms]
  obtain stmt where
    f: "fault stmt" "fst (migrateDbIfNeeded repl fault d) = Inl (StatementFailed stmt)"
    by blast
  from f(2) have k: "user_version (snd (migrateDbIfNeeded repl fault d)) = user_version (syncLibSQL repl d)"
    by (rule migrate_failure_version)
  have "repl d = None \<longrightarrow> user_version (syncLibSQL repl d) = user_version d"
    using syncLibSQL_failed [of repl d] by (simp add: store_def)
  with f k show ?thesis
    by auto
qed

theorem failed_migration_keeps_version_witness:
  "user_version (syncLibSQL offline fresh_db) < DATABASE_VERSION
   \<and> (fault_on CreateTableItems PragmaGetUserVersion
       \<or> (user_version (syncLibSQL offline fresh_db) = 0 \<and> fault_on CreateTableItems CreateTableItems)
       \<or> fault_on CreateTableItems (PragmaSetUserVersion DATABASE_VERSION))
   \<and> (\<exists>stmt. fault_on CreateTableItems stmt
         \<and> fst (migrateDbIfNeeded offline (fault_on CreateTableItems) fresh_db) = Inl (StatementFailed stmt))
   \<and> user_version (snd (migrateDbIfNeeded offline (fault_on CreateTableItems) fresh_db))
       = user_version (syncLibSQL offline fresh_db)
   \<and> offline fresh_db = None
   \<and> user_version (snd (migrateDbIfNeeded offline (fault_on CreateTableItems) fresh_db))
       = user_version fresh_db"
proof -
  have h1: "user_version (syncLibSQL offline fresh_db) < DATABASE_VERSION"
    by (simp add: syncLibSQL_def offline_def fresh_db_def DATABASE_VERSION_def)
  have h2: "fault_on CreateTableItems PragmaGetUserVersion
       \<or> (user_version (syncLibSQL offline fresh_db) = 0 \<and> fault_on CreateTableItems CreateTableItems)
       \<or> fault_on CreateTableItems (PragmaSetUserVersion DATABASE_VERSION)"
    by (simp add: syncLibSQL_def offline_def fresh_db_def fault_on_def)
  have h3: "offline fresh_db = None"
    by (simp add: offline_def)
  note w = failed_migration_keeps_version
      [where repl = offline and d = fresh_db and fault = "fault_on CreateTableItems", OF h1 h2]
  have c3: "user_version (snd (migrateDbIfNeeded offline (fault_on CreateTableItems) fresh_db))
       = user_version fresh_db"
    by (rule w [THEN conjunct2, THEN conjunct2, THEN mp, OF h3])
  show ?thesis
    by (intro conjI h1 h2 w [THEN conjunct1] w [THEN conjunct2, THEN conjunct1] h3 c3)
qed

text \<open>
  Claim C3, as the code has it. The persisted version of the store being current is not
  enough: \<open>migrateDbIfNeeded\<close> reads the version after its opening \<open>syncLibSQL\<close> call, and
  a sync that succeeds may change records and version. Let the version that the call
  reads be at least \<open>DATABASE_VERSION\<close>. Then the call makes exactly two calls on the
  handle, first \<open>syncLibSQL\<close> and then the version read, and no schema statement; the
  store afterwards (version and records) is the store as the sync call left it; the call
  returns without an error unless the engine fails the version read. When the sync
  fails, the store afterwards is the store before the call. A second call in succession,
  when it again reads a current version, again makes just these two calls and leaves the
  store as its own sync call left it; when every sync fails, the store after the two
  calls is the store before them, and the history still holds two sync calls: the pair
  is idempotent on the store and not free of side effects.
\<close>

theorem migrate_at_current_version_only_syncs:
  assumes "DATABASE_VERSION \<le> user_version (syncLibSQL repl d)"
  shows "calls (snd (migrateDbIfNeeded repl fault d)) = calls d @ [SyncLibSQL, Sql PragmaGetUserVersion]
       \<and> store (snd (migrateDbIfNeeded repl fault d)) = store (syncLibSQL repl d)
       \<and> (repl d = None \<longrightarrow> store (snd (migrateDbIfNeeded repl fault d)) = store d)
       \<and> (\<not> fault PragmaGetUserVersion \<longrightarrow> fst (migrateDbIfNeeded repl fault d) = Inr ())
       \<and> (DATABASE_VERSION \<le> user_version (syncLibSQL repl (snd (migrateDbIfNeeded repl fault d))) \<longrightarrow>
            calls (snd (migrateDbIfNeeded repl fault (snd (migrateDbIfNeeded repl fault d))))
              = calls d @ [SyncLibSQL, Sql PragmaGetUserVersion, SyncLibSQL, Sql PragmaGetUserVersion]
          \<and> store (snd (migrateDbIfNeeded repl fault (snd (migrateDbIfNeeded repl fault d))))
              = store (syncLibSQL repl (snd (migrateDbIfNeeded repl fault d))))
       \<and> ((\<forall>x. repl x = None) \<longrightarrow>
            calls (snd (migrateDbIfNeeded repl fault (snd (migrateDbIfNeeded repl fault d))))
              = calls d @ [SyncLibSQL, Sql PragmaGetUserVersion, SyncLibSQL, Sql PragmaGetUserVersion]
          \<and> store (snd (migrateDbIfNeeded repl fault (snd (migrateDbIfNeeded repl fault d))))
              = store (snd (migrateDbIfNeeded repl fault d))
          \<and> store (snd (migrateDbIfNeeded repl fault (snd (migrateDbIfNeeded repl fault d))))
              = store d)"
proof -
  let ?d1 = "snd (migrateDbIfNeeded repl fault d)"
  let ?d2 = "snd (migrateDbIfNeeded repl fault ?d1)"
  let ?four = "[SyncLibSQL, Sql PragmaGetUserVersion, SyncLibSQL, Sql PragmaGetUserVersion]"
  have c1: "calls ?d1 = calls d @ [SyncLibSQL, Sql PragmaGetUserVersion]"
    by (simp add: migrate_current(1) [OF assms])
  have s1: "store ?d1 = store (syncLibSQL repl d)"
    by (simp add: migrate_current(1) [OF assms] store_def)
  have o1: "repl d = None \<longrightarrow> store ?d1 = store d"
    using s1 syncLibSQL_failed [of repl d] by simp
  have r1: "\<not> fault PragmaGetUserVersion \<longrightarrow> fst (migrateDbIfNeeded repl fault d) = Inr ()"
    using migrate_current(2) [OF assms] by simp
  have second: "calls ?d2 = calls d @ ?four \<and> store ?d2 = store (syncLibSQL repl ?d1)"
    if a: "DATABASE_VERSION \<le> user_version (syncLibSQL repl ?d1)"
  proof -
    have "calls ?d2 = calls ?d1 @ [SyncLibSQL, Sql PragmaGetUserVersion]"
      by (simp add: migrate_current(1) [OF a])
    with c1 have c2: "calls ?d2 = calls d @ ?four"
      by simp
    have "store ?d2 = store (syncLibSQL repl ?d1)"
      by (simp add: migrate_current(1) [OF a] store_def)
    with c2 show ?thesis
      by simp
  qed
  have always_failing: "calls ?d2 = calls d @ ?four \<and> store ?d2 = store ?d1 \<and> store ?d2 = store d"
    if f: "\<forall>x. repl x = None"
  proof -
    from f have f0: "repl d = None" and f1: "repl ?d1 = None"
      by simp_all
    from o1 f0 have e1: "store ?d1 = store d"
      by simp
    have e2: "store (syncLibSQL repl ?d1) = store ?d1"
      using f1 by (rule syncLibSQL_failed)
    have "store (syncLibSQL repl d) = store d"
      using f0 by (rule syncLibSQL_failed)
    with e1 e2 have "user_version (syncLibSQL repl ?d1) = user_version (syncLibSQL repl d)"
      by (simp add: store_def)
    with assms have "DATABASE_VERSION \<le> user_version (syncLibSQL repl ?d1)"
      by simp
    from second [OF this] e1 e2 show ?thesis
      by simp
  qed
  have second': "DATABASE_VERSION \<le> user_version (syncLibSQL repl ?d1) \<longrightarrow>
                   calls ?d2 = calls d @ ?four \<and> store ?d2 = store (syncLibSQL repl ?d1)"
    using second by (rule impI)
  have always_failing': "(\<forall>x. repl x = None) \<longrightarrow>
                   calls ?d2 = calls d @ ?four \<and> store ?d2 = store ?d1 \<and> store ?d2 = store d"
    using always_failing by (rule impI)
  show ?thesis
    by (rule conjI [OF c1 conjI [OF s1 conjI [OF o1 conjI [OF r1 conjI [OF second' always_failing']]]]])
qed

theorem migrate_at_current_version_only_syncs_witness:
  "DATABASE_VERSION \<le> user_version (syncLibSQL offline sample_db)
   \<and> calls (snd (migrateDbIfNeeded offline no_fault sample_db))
        = calls sample_db @ [SyncLibSQL, Sql PragmaGetUserVersion]
   \<and> store (snd (migrateDbIfNeeded offline no_fault sample_db)) = store (syncLibSQL offline sample_db)
   \<and> offline sample_db = None
   \<and> store (snd (migrateDbIfNeeded offline no_fault sample_db)) = store sample_db
   \<and> \<not> no_fault PragmaGetUserVersion
   \<and> fst (migrateDbIfNeeded offline no_fault sample_db) = Inr ()
   \<and> DATABASE_VERSION \<le> user_version (syncLibSQL offline (snd (migrateDbIfNeeded offline no_fault sample_db)))
   \<and> calls (snd (migrateDbIfNeeded offline no_fault (snd (migrateDbIfNeeded offline no_fault sample_db))))
        = calls sample_db @ [SyncLibSQL, Sql PragmaGetUserVersion, SyncLibSQL, Sql PragmaGetUserVersion]
   \<and> store (snd (migrateDbIfNeeded offline no_fault (snd (migrateDbIfNeeded offline no_fault sample_db))))
        = store (syncLibSQL offline (snd (migrateDbIfNeeded offline no_fault sample_db)))
   \<and> (\<forall>x. offline x = None)
   \<and> store (snd (migrateDbIfNeeded offline no_fault (snd (migrateDbIfNeeded offline no_fault sample_db))))
        = store (snd (migrateDbIfNeeded offline no_fault sample_db))
   \<and> store (snd (migrateDbIfNeeded offline no_fault (snd (migrateDbIfNeeded offline no_fault sample_db))))
        = store sample_db"
proof -
  have h1: "DATABASE_VERSION \<le> user_version (syncLibSQL offline sample_db)"
    by (simp add: syncLibSQL_def offline_def sample_db_def DATABASE_VERSION_def)
  have h2: "offline sample_db = None"
    by (simp add: offline_def)
  have h3: "\<not> no_fault PragmaGetUserVersion"
    by (simp add: no_fault_def)
  have h5: "\<forall>x. offline x = None"
    by (simp add: offline_def)
  note w = migrate_at_current_version_only_syncs
      [where repl = offline and d = sample_db and fault = no_fault, OF h1]
  note w1 = w [THEN conjunct1]
  note w2 = w [THEN conjunct2, THEN conjunct1]
  note w3 = w [THEN conjunct2, THEN conjunct2, THEN conjunct1, THEN mp, OF h2]
  note w4 = w [THEN conjunct2, THEN conjunct2, THEN conjunct2, THEN conjunct1, THEN mp, OF h3]
  have h4: "DATABASE_VERSION
              \<le> user_version (syncLibSQL offline (snd (migrateDbIfNeeded offline no_fault sample_db)))"
    using w2 by (simp add: store_def syncLibSQL_def offline_def sample_db_def DATABASE_VERSION_def)
  note w5 = w [THEN conjunct2, THEN conjunct2, THEN conjunct2, THEN conjunct2, THEN conjunct1,
               THEN mp, OF h4]
  note w6 = w [THEN conjunct2, THEN conjunct2, THEN conjunct2, THEN conjunct2, THEN conjunct2,
               THEN mp, OF h5]
  show ?thesis
    by (intro conjI h1 w1 w2 h2 w3 h3 w4 h4 w5 [THEN conjunct1] w5 [THEN conjunct2] h5
          w6 [THEN conjunct2, THEN conjunct1] w6 [THEN conjunct2, THEN conjunct2])
qed

text \<open>
  The claim as it was worded, on the persisted version of the store alone, fails when the
  sync succeeds. The sample store has persisted version 1. With a sync that pulls one
  remote record the call sends no schema statement, yet the records afterwards are not
  the records before. With a sync that brings an unmigrated remote store the version
  read is 0, and the call sends the \<^verbatim>\<open>CREATE TABLE\<close> and the version write.
\<close>

theorem migrate_at_current_version_counterexample:
  "DATABASE_VERSION \<le> user_version sample_db
   \<and> calls (snd (migrateDbIfNeeded remote_ahead no_fault sample_db))
        = [SyncLibSQL, Sql PragmaGetUserVersion]
   \<and> items (snd (migrateDbIfNeeded remote_ahead no_fault sample_db)) \<noteq> items sample_db
   \<and> calls (snd (migrateDbIfNeeded remote_reset no_fault sample_db))
        = [SyncLibSQL, Sql PragmaGetUserVersion, Sql CreateTableItems,
           Sql (PragmaSetUserVersion DATABASE_VERSION)]
   \<and> store (snd (migrateDbIfNeeded remote_reset no_fault sample_db)) \<noteq> store sample_db"
  by (simp add: migrateDbIfNeeded_def syncLibSQL_def getFirstAsync_def execAsync_def
        remote_ahead_def remote_reset_def no_fault_def sample_db_def sample_rows_def
        store_def DATABASE_VERSION_def Let_def)

section \<open>Synchronisation, manual and periodic\<close>

lemma refetchItems_calls:
  "\<exists>rest. calls (db (refetchItems fault s)) = calls (db s) @ WithTransactionAsync # rest
        \<and> (rest = [Sql (SelectByDone False)]
           \<or> rest = [Sql (SelectByDone False), Sql (SelectByDone True)])"
  by (auto simp: refetchItems_def refetch_def withTransactionAsync_def getAllAsync_def Let_def
           split: option.splits)

lemma refetchItems_store: "store (db (refetchItems fault s)) = store (db s)"
  by (auto simp: refetchItems_def refetch_def withTransactionAsync_def getAllAsync_def Let_def
                 store_def
           split: option.splits)

lemma refetchItems_flag: "enablePollingSync (refetchItems fault s) = enablePollingSync s"
  by (auto simp: refetchItems_def refetch_def withTransactionAsync_def getAllAsync_def Let_def
           split: option.splits)

lemma refetchItems_views:
  assumes "items (db s) = Some rows"
      and "\<not> fault (SelectByDone False)" and "\<not> fault (SelectByDone True)"
  shows "todoItems (refetchItems fault s) = filter (\<lambda>r. done_of r = False) rows"
    and "doneItems (refetchItems fault s) = filter (\<lambda>r. done_of r = True) rows"
  using assms
  by (simp_all add: refetchItems_def refetch_def withTransactionAsync_def getAllAsync_def Let_def)

lemma sync_calls:
  "\<exists>rest. calls (db (sync repl fault True s)) = calls (db s) @ SyncLibSQL # WithTransactionAsync # rest
        \<and> (rest = [Sql (SelectByDone False)]
           \<or> rest = [Sql (SelectByDone False), Sql (SelectByDone True)])"
proof -
  let ?s1 = "s\<lparr>db := syncLibSQL repl (db s)\<rparr>"
  obtain rest where r: "calls (db (refetchItems fault ?s1)) = calls (db ?s1) @ WithTransactionAsync # rest"
      "rest = [Sql (SelectByDone False)] \<or> rest = [Sql (SelectByDone False), Sql (SelectByDone True)]"
    using refetchItems_calls [of fault ?s1] by blast
  have "calls (db (sync repl fault True s)) = calls (db s) @ SyncLibSQL # WithTransactionAsync # rest"
    using r(1) by (simp add: sync_def Let_def syncLibSQL_calls)
  with r(2) show ?thesis
    by blast
qed

lemma sync_no_refetch_calls: "calls (db (sync repl fault False s)) = calls (db s) @ [SyncLibSQL]"
  by (simp add: sync_def Let_def syncLibSQL_calls)

lemma sync_flag: "enablePollingSync (sync repl fault rf s) = enablePollingSync s"
  by (simp add: sync_def Let_def refetchItems_flag)

lemma tick_flag: "enablePollingSync (tick repl fault s) = enablePollingSync s"
  by (simp add: tick_def sync_flag)

lemma ticks_flag: "enablePollingSync (ticks repl fault n s) = enablePollingSync s"
  by (induction n arbitrary: s) (simp_all add: tick_flag)

lemma sync_failed_store:
  "repl (db s) = None \<Longrightarrow> store (db (sync repl fault rf s)) = store (db s)"
  by (simp add: sync_def Let_def refetchItems_store syncLibSQL_failed)

lemma tick_failed_store:
  "repl (db s) = None \<Longrightarrow> store (db (tick repl fault s)) = store (db s)"
  by (simp add: tick_def sync_failed_store)

lemma ticks_failed_store:
  "\<forall>x. repl x = None \<Longrightarrow> store (db (ticks repl fault n s)) = store (db s)"
  by (induction n arbitrary: s) (simp_all add: tick_failed_store)

lemma ticks_Suc_right: "ticks repl fault (Suc n) s = tick repl fault (ticks repl fault n s)"
  by (induction n arbitrary: s) simp_all

lemma ticks_calls:
  "enablePollingSync s \<Longrightarrow>
   \<exists>new. calls (db (ticks repl fault n s)) = calls (db s) @ new
       \<and> count_list new SyncLibSQL = n \<and> count_list new WithTransactionAsync = n"
proof (induction n arbitrary: s)
  case 0
  then show ?case by simp
next
  case (Suc n)
  let ?s1 = "tick repl fault s"
  from Suc.prems obtain rest where
    r: "calls (db ?s1) = calls (db s) @ SyncLibSQL # WithTransactionAsync # rest"
       "rest = [Sql (SelectByDone False)] \<or> rest = [Sql (SelectByDone False), Sql (SelectByDone True)]"
    using sync_calls [of repl fault s] by (auto simp: tick_def)
  have "enablePollingSync ?s1"
    using Suc.prems by (simp add: tick_flag)
  from Suc.IH [OF this] obtain new where
    n: "calls (db (ticks repl fault n ?s1)) = calls (db ?s1) @ new"
       "count_list new SyncLibSQL = n" "count_list new WithTransactionAsync = n"
    by blast
  let ?all = "SyncLibSQL # WithTransactionAsync # rest @ new"
  have "calls (db (ticks repl fault (Suc n) s)) = calls (db s) @ ?all"
    using r(1) n(1) by simp
  moreover have "count_list ?all SyncLibSQL = Suc n" "count_list ?all WithTransactionAsync = Suc n"
    using r(2) n(2,3) by auto
  ultimately show ?case
    by blast
qed


lemma runAsync_store_cong:
  assumes "store d1 = store d2"
  shows "fst (runAsync f stmt d1) = fst (runAsync f stmt d2)"
    and "store (snd (runAsync f stmt d1)) = store (snd (runAsync f stmt d2))"
  using assms
  by (cases stmt; auto simp: runAsync_def store_def Let_def split: option.splits)+

lemma getAllAsync_store_cong:
  "store d1 = store d2 \<Longrightarrow> fst (getAllAsync f dn d1) = fst (getAllAsync f dn d2)"
  by (auto simp: getAllAsync_def store_def Let_def split: option.splits)

lemma addItemAsync_store_cong:
  assumes "store d1 = store d2"
  shows "fst (addItemAsync f d1 t) = fst (addItemAsync f d2 t)
       \<and> store (snd (addItemAsync f d1 t)) = store (snd (addItemAsync f d2 t))"
  using assms runAsync_store_cong [OF assms] by (simp add: addItemAsync_def)

lemma updateItemAsDoneAsync_store_cong:
  assumes "store d1 = store d2"
  shows "fst (updateItemAsDoneAsync f d1 i) = fst (updateItemAsDoneAsync f d2 i)
       \<and> store (snd (updateItemAsDoneAsync f d1 i)) = store (snd (updateItemAsDoneAsync f d2 i))"
  using runAsync_store_cong [OF assms] by (simp add: updateItemAsDoneAsync_def)

lemma deleteItemAsync_store_cong:
  assumes "store d1 = store d2"
  shows "fst (deleteItemAsync f d1 i) = fst (deleteItemAsync f d2 i)
       \<and> store (snd (deleteItemAsync f d1 i)) = store (snd (deleteItemAsync f d2 i))"
  using runAsync_store_cong [OF assms] by (simp add: deleteItemAsync_def)

lemma tick_failed_views:
  assumes "repl (db s) = None" and "enablePollingSync s" and "items (db s) = Some rows"
      and "\<not> fault (SelectByDone False)" and "\<not> fault (SelectByDone True)"
  shows "todoItems (tick repl fault s) = filter (\<lambda>r. done_of r = False) rows
       \<and> doneItems (tick repl fault s) = filter (\<lambda>r. done_of r = True) rows"
proof -
  let ?s1 = "s\<lparr>db := syncLibSQL repl (db s)\<rparr>"
  have "items (db ?s1) = Some rows"
    using assms(1,3) by (simp add: syncLibSQL_def Let_def)
  from refetchItems_views [OF this assms(4,5)] assms(2) show ?thesis
    by (simp add: tick_def sync_def Let_def)
qed

text \<open>
  Claim C2. Let the replication primitive fail on every invocation and let auto-sync be
  enabled. Then after any number \<open>n\<close> of periods of the interval (and after a manual
  sync) the store, version and records, is what it was; the flag is still set; every
  listing and every \<open>addItemAsync\<close>, \<open>updateItemAsDoneAsync\<close> and \<open>deleteItemAsync\<close> on the
  database gives the result, and the store, that it would have given before those
  periods; and after at least one period, when the table exists and the engine does not
  fail the two selects, the two views \<open>todoItems\<close> and \<open>doneItems\<close> are the pending and
  the completed records of the unchanged table. No period ends in an error: \<open>tick\<close>
  returns a state of the component.
\<close>

theorem failed_sync_keeps_local_items:
  assumes "\<forall>x. repl x = None"
      and "enablePollingSync s"
  shows "store (db (ticks repl fault n s)) = store (db s)
       \<and> enablePollingSync (ticks repl fault n s)
       \<and> store (db (sync repl fault rf s)) = store (db s)
       \<and> (\<forall>f dn. fst (getAllAsync f dn (db (ticks repl fault n s))) = fst (getAllAsync f dn (db s)))
       \<and> (\<forall>f t. fst (addItemAsync f (db (ticks repl fault n s)) t) = fst (addItemAsync f (db s) t)
               \<and> store (snd (addItemAsync f (db (ticks repl fault n s)) t))
                   = store (snd (addItemAsync f (db s) t)))
       \<and> (\<forall>f i. fst (updateItemAsDoneAsync f (db (ticks repl fault n s)) i)
                   = fst (updateItemAsDoneAsync f (db s) i)
               \<and> store (snd (updateItemAsDoneAsync f (db (ticks repl fault n s)) i))
                   = store (snd (updateItemAsDoneAsync f (db s) i)))
       \<and> (\<forall>f i. fst (deleteItemAsync f (db (ticks repl fault n s)) i) = fst (deleteItemAsync f (db s) i)
               \<and> store (snd (deleteItemAsync f (db (ticks repl fault n s)) i))
                   = store (snd (deleteItemAsync f (db s) i)))
       \<and> (\<forall>rows. 0 < n \<and> items (db s) = Some rows
                 \<and> \<not> fault (SelectByDone False) \<and> \<not> fault (SelectByDone True) \<longrightarrow>
               todoItems (ticks repl fault n s) = filter (\<lambda>r. done_of r = False) rows
             \<and> doneItems (ticks repl fault n s) = filter (\<lambda>r. done_of r = True) rows)"
proof -
  let ?s' = "ticks repl fault n s"
  have st: "store (db ?s') = store (db s)"
    using assms(1) by (rule ticks_failed_store)
  have fl: "enablePollingSync ?s'"
    using assms(2) by (simp add: ticks_flag)
  have man: "store (db (sync repl fault rf s)) = store (db s)"
    using assms(1) by (simp add: sync_failed_store)
  have lst: "\<forall>f dn. fst (getAllAsync f dn (db ?s')) = fst (getAllAsync f dn (db s))"
    by (intro allI getAllAsync_store_cong st)
  have add: "\<forall>f t. fst (addItemAsync f (db ?s') t) = fst (addItemAsync f (db s) t)
               \<and> store (snd (addItemAsync f (db ?s') t)) = store (snd (addItemAsync f (db s) t))"
    by (intro allI addItemAsync_store_cong st)
  have upd: "\<forall>f i. fst (updateItemAsDoneAsync f (db ?s') i) = fst (updateItemAsDoneAsync f (db s) i)
               \<and> store (snd (updateItemAsDoneAsync f (db ?s') i))
                   = store (snd (updateItemAsDoneAsync f (db s) i))"
    by (intro allI updateItemAsDoneAsync_store_cong st)
  have del: "\<forall>f i. fst (deleteItemAsync f (db ?s') i) = fst (deleteItemAsync f (db s) i)
               \<and> store (snd (deleteItemAsync f (db ?s') i)) = store (snd (deleteItemAsync f (db s) i))"
    by (intro allI deleteItemAsync_store_cong st)
  have views: "\<forall>rows. 0 < n \<and> items (db s) = Some rows
                 \<and> \<not> fault (SelectByDone False) \<and> \<not> fault (SelectByDone True) \<longrightarrow>
               todoItems ?s' = filter (\<lambda>r. done_of r = False) rows
             \<and> doneItems ?s' = filter (\<lambda>r. done_of r = True) rows"
  proof (intro allI impI)
    fix rows
    assume a: "0 < n \<and> items (db s) = Some rows
                 \<and> \<not> fault (SelectByDone False) \<and> \<not> fault (SelectByDone True)"
    then obtain m where m: "n = Suc m"
      by (cases n) auto
    let ?sm = "ticks repl fault m s"
    have "store (db ?sm) = store (db s)"
      using assms(1) by (rule ticks_failed_store)
    with a have i: "items (db ?sm) = Some rows"
      by (simp add: store_def)
    have e: "enablePollingSync ?sm"
      using assms(2) by (simp add: ticks_flag)
    have r: "repl (db ?sm) = None"
      using assms(1) by simp
    from a have f1: "\<not> fault (SelectByDone False)" and f2: "\<not> fault (SelectByDone True)"
      by simp_all
    have "todoItems (tick repl fault ?sm) = filter (\<lambda>r. done_of r = False) rows
        \<and> doneItems (tick repl fault ?sm) = filter (\<lambda>r. done_of r = True) rows"
      by (rule tick_failed_views [where repl = repl and fault = fault, OF r e i f1 f2])
    then show "todoItems ?s' = filter (\<lambda>r. done_of r = False) rows
             \<and> doneItems ?s' = filter (\<lambda>r. done_of r = True) rows"
      unfolding m ticks_Suc_right .
  qed
  show ?thesis
    by (intro conjI st fl man lst add upd del views)
qed

theorem failed_sync_keeps_local_items_witness:
  "(\<forall>x. offline x = None)
   \<and> enablePollingSync sample_main
   \<and> store (db (ticks offline no_fault 2 sample_main)) = store (db sample_main)
   \<and> enablePollingSync (ticks offline no_fault 2 sample_main)
   \<and> store (db (sync offline no_fault True sample_main)) = store (db sample_main)
   \<and> (\<forall>f dn. fst (getAllAsync f dn (db (ticks offline no_fault 2 sample_main)))
               = fst (getAllAsync f dn (db sample_main)))
   \<and> (\<forall>f t. fst (addItemAsync f (db (ticks offline no_fault 2 sample_main)) t)
               = fst (addItemAsync f (db sample_main) t)
           \<and> store (snd (addItemAsync f (db (ticks offline no_fault 2 sample_main)) t))
               = store (snd (addItemAsync f (db sample_main) t)))
   \<and> (\<forall>f i. fst (updateItemAsDoneAsync f (db (ticks offline no_fault 2 sample_main)) i)
               = fst (updateItemAsDoneAsync f (db sample_main) i)
           \<and> store (snd (updateItemAsDoneAsync f (db (ticks offline no_fault 2 sample_main)) i))
               = store (snd (updateItemAsDoneAsync f (db sample_main) i)))
   \<and> (\<forall>f i. fst (deleteItemAsync f (db (ticks offline no_fault 2 sample_main)) i)
               = fst (deleteItemAsync f (db sample_main) i)
           \<and> store (snd (deleteItemAsync f (db (ticks offline no_fault 2 sample_main)) i))
               = store (snd (deleteItemAsync f (db sample_main) i)))
   \<and> 0 < (2::nat)
   \<and> items (db sample_main) = Some sample_rows
   \<and> \<not> no_fault (SelectByDone False)
   \<and> \<not> no_fault (SelectByDone True)
   \<and> todoItems (ticks offline no_fault 2 sample_main) = filter (\<lambda>r. done_of r = False) sample_rows
   \<and> doneItems (ticks offline no_fault 2 sample_main) = filter (\<lambda>r. done_of r = True) sample_rows"
proof -
  have h1: "\<forall>x. offline x = None"
    by (simp add: offline_def)
  have h2: "enablePollingSync sample_main"
    by (simp add: sample_main_def)
  have h3: "0 < (2::nat)"
    by simp
  have h4: "items (db sample_main) = Some sample_rows"
    by (simp add: sample_main_def sample_db_def)
  have h5: "\<not> no_fault (SelectByDone False)" and h6: "\<not> no_fault (SelectByDone True)"
    by (simp_all add: no_fault_def)
  note w = failed_sync_keeps_local_items
      [where repl = offline and s = sample_main and fault = no_fault and n = 2 and rf = True, OF h1 h2]
  note w1 = w [THEN conjunct1]
  note w2 = w [THEN conjunct2, THEN conjunct1]
  note w3 = w [THEN conjunct2, THEN conjunct2, THEN conjunct1]
  note w4 = w [THEN conjunct2, THEN conjunct2, THEN conjunct2, THEN conjunct1]
  note w5 = w [THEN conjunct2, THEN conjunct2, THEN conjunct2, THEN conjunct2, THEN conjunct1]
  note w6 = w [THEN conjunct2, THEN conjunct2, THEN conjunct2, THEN conjunct2, THEN conjunct2,
               THEN conjunct1]
  note w7 = w [THEN conjunct2, THEN conjunct2, THEN conjunct2, THEN conjunct2, THEN conjunct2,
               THEN conjunct2, THEN conjunct1]
  note w8 = w [THEN conjunct2, THEN conjunct2, THEN conjunct2, THEN conjunct2, THEN conjunct2,
               THEN conjunct2, THEN conjunct2, THEN spec, THEN mp,
               OF conjI [OF h3 conjI [OF h4 conjI [OF h5 h6]]]]
  show ?thesis
    by (intro conjI h1 h2 w1 w2 w3 w4 w5 w6 w7 h3 h4 h5 h6 w8 [THEN conjunct1] w8 [THEN conjunct2])
qed

text \<open>
  Claim C9. While \<open>enablePollingSync\<close> is set, one period of the interval adds to the
  history of calls exactly one \<open>syncLibSQL\<close> call, then exactly one
  \<open>withTransactionAsync\<close> call (the refresh of the two views), then only the selects of
  that refresh; \<open>n\<close> periods add \<open>n\<close> of each. The same holds for \<open>sync(true)\<close> however it
  is invoked (button or interval); \<open>sync(false)\<close> adds the one \<open>syncLibSQL\<close> call and no
  refresh.
\<close>

theorem tick_syncs_once_then_refreshes_once:
  assumes "enablePollingSync s"
  shows "(\<exists>rest. calls (db (tick repl fault s)) = calls (db s) @ SyncLibSQL # WithTransactionAsync # rest
              \<and> SyncLibSQL \<notin> set rest \<and> WithTransactionAsync \<notin> set rest)
       \<and> (\<exists>new. calls (db (ticks repl fault n s)) = calls (db s) @ new
              \<and> count_list new SyncLibSQL = n \<and> count_list new WithTransactionAsync = n)
       \<and> (\<exists>rest. calls (db (sync repl fault True s)) = calls (db s) @ SyncLibSQL # WithTransactionAsync # rest
              \<and> SyncLibSQL \<notin> set rest \<and> WithTransactionAsync \<notin> set rest)
       \<and> calls (db (sync repl fault False s)) = calls (db s) @ [SyncLibSQL]"
proof -
  have m: "\<exists>rest. calls (db (sync repl fault True s)) = calls (db s) @ SyncLibSQL # WithTransactionAsync # rest
              \<and> SyncLibSQL \<notin> set rest \<and> WithTransactionAsync \<notin> set rest"
    using sync_calls [of repl fault s] by auto
  then have t: "\<exists>rest. calls (db (tick repl fault s)) = calls (db s) @ SyncLibSQL # WithTransactionAsync # rest
              \<and> SyncLibSQL \<notin> set rest \<and> WithTransactionAsync \<notin> set rest"
    using assms by (simp add: tick_def)
  show ?thesis
    by (intro conjI t m ticks_calls [OF assms] sync_no_refetch_calls)
qed

theorem tick_syncs_once_then_refreshes_once_witness:
  "enablePollingSync sample_main
   \<and> (\<exists>rest. calls (db (tick offline no_fault sample_main))
               = calls (db sample_main) @ SyncLibSQL # WithTransactionAsync # rest
              \<and> SyncLibSQL \<notin> set rest \<and> WithTransactionAsync \<notin> set rest)
   \<and> (\<exists>new. calls (db (ticks offline no_fault 2 sample_main)) = calls (db sample_main) @ new
              \<and> count_list new SyncLibSQL = 2 \<and> count_list new WithTransactionAsync = 2)
   \<and> (\<exists>rest. calls (db (sync offline no_fault True sample_main))
               = calls (db sample_main) @ SyncLibSQL # WithTransactionAsync # rest
              \<and> SyncLibSQL \<notin> set rest \<and> WithTransactionAsync \<notin> set rest)
   \<and> calls (db (sync offline no_fault False sample_main)) = calls (db sample_main) @ [SyncLibSQL]"
proof -
  have h1: "enablePollingSync sample_main"
    by (simp add: sample_main_def)
  show ?thesis
    by (rule conjI [OF h1 tick_syncs_once_then_refreshes_once
      [where repl = offline and s = sample_main and fault = no_fault and n = 2, OF h1]])
qed

section \<open>A run of the application\<close>

text \<open>
  A new database file, no network, an engine that never fails: the application opens at
  version 1 with an empty table; submitting ``Buy milk'' shows it as pending, pressing it
  shows it as completed, pressing it again removes it.
\<close>

lemma scenario_open:
  "\<exists>s. App offline no_fault fresh_db = Inr s \<and> user_version (db s) = 1 \<and> items (db s) = Some []
       \<and> todoItems s = [] \<and> doneItems s = []"
  by (simp add: App_def migrateDbIfNeeded_def syncLibSQL_def getFirstAsync_def execAsync_def
        getAllAsync_def refetchItems_def refetch_def withTransactionAsync_def offline_def
        no_fault_def fresh_db_def DATABASE_VERSION_def Let_def)

lemma scenario_buy_milk:
  "App offline no_fault fresh_db = Inr s0 \<Longrightarrow>
   s1 = onSubmitEditing no_fault (setText ''Buy milk'' s0) \<Longrightarrow>
   s2 = onPressTodoItem no_fault 1 s1 \<Longrightarrow>
   s3 = onPressDoneItem no_fault 1 s2 \<Longrightarrow>
     todoItems s1 = [\<lparr>id_of = 1, done_of = False, value_of = ''Buy milk''\<rparr>] \<and> doneItems s1 = []
   \<and> text_of s1 = []
   \<and> todoItems s2 = [] \<and> doneItems s2 = [\<lparr>id_of = 1, done_of = True, value_of = ''Buy milk''\<rparr>]
   \<and> todoItems s3 = [] \<and> doneItems s3 = [] \<and> items (db s3) = Some []"
  by (auto simp add: App_def migrateDbIfNeeded_def syncLibSQL_def getFirstAsync_def execAsync_def
        runAsync_def getAllAsync_def refetchItems_def refetch_def withTransactionAsync_def
        addItemAsync_def updateItemAsDoneAsync_def deleteItemAsync_def onSubmitEditing_def
        onPressTodoItem_def onPressDoneItem_def setText_def offline_def no_fault_def fresh_db_def
        DATABASE_VERSION_def next_rowid_def Let_def)

end
